theory Spec2Isabelle
  imports Main
begin

section \<open>Go library functions the wrappers call\<close>

text \<open>
  A Go string is a sequence of bytes and \<open>len\<close> counts bytes; \<^typ>\<open>string\<close> is a list
  of 8-bit characters, so \<^const>\<open>length\<close> is Go's \<open>len\<close>.  The functions below are those
  of the packages \<open>strings\<close> and \<open>encoding/base64\<close> at the arguments the wrappers use:
  \<open>strings.HasPrefix\<close>, \<open>strings.Split\<close> with a separator of one byte, and
  \<open>base64.StdEncoding\<close> (padded, not strict; the decoder skips CR and LF and refuses
  everything else that is not in the alphabet, missing padding and trailing bytes).
\<close>


definition HasPrefix :: "string \<Rightarrow> string \<Rightarrow> bool" where
  "HasPrefix s pre = (take (length pre) s = pre)"

fun Split :: "string \<Rightarrow> char \<Rightarrow> string list" where
  "Split [] sep = [[]]"
| "Split (c # cs) sep =
     (if c = sep then [] # Split cs sep
      else (case Split cs sep of [] \<Rightarrow> [[c]] | t # ts \<Rightarrow> (c # t) # ts))"

definition encodeStd :: string where
  "encodeStd = ''ABCDEFGHIJKLMNOPQRSTUVWXYZabcdefghijklmnopqrstuvwxyz0123456789+/''"

definition padChar :: char where
  "padChar = CHR ''=''"

fun indexByte :: "string \<Rightarrow> char \<Rightarrow> nat option" where
  "indexByte [] c = None"
| "indexByte (x # xs) c = (if x = c then Some 0 else map_option Suc (indexByte xs c))"

definition decodeMap :: "char \<Rightarrow> nat option" where
  "decodeMap c = indexByte encodeStd c"

definition sextet :: "nat \<Rightarrow> char" where
  "sextet i = encodeStd ! (i mod 64)"

fun EncodeToString :: "string \<Rightarrow> string" where
  "EncodeToString [] = []"
| "EncodeToString [a] =
     (let x = (of_char a :: nat)
      in [sextet (x div 4), sextet ((x mod 4) * 16), padChar, padChar])"
| "EncodeToString [a, b] =
     (let x = (of_char a :: nat); y = (of_char b :: nat)
      in [sextet (x div 4), sextet ((x mod 4) * 16 + y div 16), sextet ((y mod 16) * 4), padChar])"
| "EncodeToString (a # b # c # rest) =
     (let x = (of_char a :: nat); y = (of_char b :: nat); z = (of_char c :: nat)
      in [sextet (x div 4), sextet ((x mod 4) * 16 + y div 16),
          sextet ((y mod 16) * 4 + z div 64), sextet (z mod 64)] @ EncodeToString rest)"

definition byte1of :: "nat \<Rightarrow> nat \<Rightarrow> char" where
  "byte1of x0 x1 = char_of (x0 * 4 + x1 div 16)"
definition byte2of :: "nat \<Rightarrow> nat \<Rightarrow> char" where
  "byte2of x1 x2 = char_of ((x1 mod 16) * 16 + x2 div 4)"
definition byte3of :: "nat \<Rightarrow> nat \<Rightarrow> char" where
  "byte3of x2 x3 = char_of ((x2 mod 4) * 64 + x3)"

fun decodeQuanta :: "string \<Rightarrow> string option" where
  "decodeQuanta [] = Some []"
| "decodeQuanta (a # b # c # d # rest) =
     (case decodeMap a of None \<Rightarrow> None | Some x0 \<Rightarrow>
      (case decodeMap b of None \<Rightarrow> None | Some x1 \<Rightarrow>
       (case decodeMap c of
          None \<Rightarrow>
            if c = padChar \<and> d = padChar \<and> rest = [] then Some [byte1of x0 x1] else None
        | Some x2 \<Rightarrow>
           (case decodeMap d of
              None \<Rightarrow>
                if d = padChar \<and> rest = [] then Some [byte1of x0 x1, byte2of x1 x2] else None
            | Some x3 \<Rightarrow>
                map_option (\<lambda>tl. byte1of x0 x1 # byte2of x1 x2 # byte3of x2 x3 # tl)
                  (decodeQuanta rest)))))"
| "decodeQuanta _ = None"

definition DecodeString :: "string \<Rightarrow> string option" where
  "DecodeString s = decodeQuanta (filter (\<lambda>c. c \<noteq> CHR 0x0A \<and> c \<noteq> CHR 0x0D) s)"



section \<open>Errors\<close>

text \<open>
  The Go code builds its errors with \<open>fmt.Errorf\<close> and \<open>errors.New\<close>; each constructor
  below is one of those sites (its message is quoted beside it), named after the error
  taxonomy of the specification where there is one.  An error that wraps the error of a
  failed step (\<open>%v\<close>) carries it.  A panic of the Go runtime is an error value too.
\<close>

datatype error =
    SdkError string
      \<comment> \<open>an error returned by a call of the AWS SDK (queue, topic or store)\<close>
  | NilPointerPanic
      \<comment> \<open>the runtime panic of dereferencing a nil pointer\<close>
  | SliceBoundsPanic
      \<comment> \<open>the runtime panic of slicing out of range\<close>
  | UnsupportedAttributeType string
      \<comment> \<open>"encountered unexpected data type for message: %s"\<close>
  | UnableToCheckMessageSize error
      \<comment> \<open>"unable to check message size. %v", "unable to get size of message. %v"\<close>
  | MessageTooLarge nat nat
      \<comment> \<open>"message size of %d bytes greater than allowed message size of %d bytes"\<close>
  | DestinationIsNil
      \<comment> \<open>"queueUrl is nil", "topicArn is nil"\<close>
  | InvalidDestinationIdentifier nat
      \<comment> \<open>"expected 5 tokens when splitting queueUrl by '/' but only received %d"\<close>
  | UnableToCreateReferenceMessage error
      \<comment> \<open>"unable to create reference message from queueUrl. %v"\<close>
  | UnableToSerialize error
      \<comment> \<open>"unable to serialize message. %v"\<close>
  | UnableToUpload error
      \<comment> \<open>"unable to upload large message to s3. %v"\<close>
  | UnableToUnmarshalReferenceMessage error
      \<comment> \<open>"unable to unmarshal reference message. %v"\<close>
  | UnableToGetFromS3 error
      \<comment> \<open>"unable to get message from s3. %v"\<close>
  | UnableToDecodeLargeMessage error
      \<comment> \<open>"unable to decode bytes into large message type. %v"\<close>
  | CouldNotDecodeReceiptHandle
      \<comment> \<open>"could not decode receipt handle. %v"\<close>
  | MalformedReceiptHandle nat
      \<comment> \<open>"expected number of tokens (%d) not available in receipt handle"\<close>
  | CouldNotDeleteS3Object error
      \<comment> \<open>"could not delete s3 object for large message. %v"\<close>

section \<open>The SQS wrapper: data\<close>

text \<open>The constants of \<open>sqs.go\<close>.\<close>

definition MaxSqsMessageLengthBytes :: nat where
  "MaxSqsMessageLengthBytes = 262144"

definition MaxHeftyMessageLengthBytes :: nat where
  "MaxHeftyMessageLengthBytes = 26214400"

definition heftyClientVersionMessageKey :: string where
  "heftyClientVersionMessageKey = ''hefty-client-version''"

definition receiptHandlePrefix :: string where
  "receiptHandlePrefix = ''hefty-message''"

definition expectedReceiptHandleTokenCount :: nat where
  "expectedReceiptHandleTokenCount = 4"

text \<open>
  The SDK's types, with the fields the wrapper reads or writes.  A pointer to a string is
  an option (\<open>None\<close> is nil).  A Go map is an association list with distinct keys, in
  the order the \<open>range\<close> loop happens to visit it (Go leaves that order open, so a theorem
  about a map holds for every order of the list); the nil map is the empty list.
\<close>

record MessageAttributeValue =
  DataType :: "string option"
  StringValue :: "string option"
  BinaryValue :: string

type_synonym attributes = "(string \<times> MessageAttributeValue) list"

record SendMessageInput =
  QueueUrl :: "string option"
  MessageBody :: "string option"
  MessageAttributes :: attributes

record SendMessageOutput =
  MessageId :: "string option"
  MD5OfMessageBody :: "string option"
  MD5OfMessageAttributes :: "string option"

record DeleteMessageInput =
  QueueUrl :: "string option"
  ReceiptHandle :: "string option"

text \<open>
  The world outside the process: the objects of the blob store, by bucket and key, and
  the log of the calls made to the SDK, oldest first.  The log is what a claim about the
  order of the calls, or about a call that is not made, is stated on.
\<close>

datatype call =
    SendMessageCall "SendMessageInput option"
  | DeleteMessageCall DeleteMessageInput
  | UploadCall string string string
  | DownloadCall string string
  | DeleteObjectCall string string

record world =
  objects :: "string \<times> string \<Rightarrow> string option"
  calls :: "call list"

text \<open>
  What the services answer.  Each field decides the outcome of one SDK call from its
  arguments; the wrapper's code is the same for every choice of them.
\<close>

record services =
  sendMessageResult :: "SendMessageInput option \<Rightarrow> error + SendMessageOutput"
  deleteMessageResult :: "DeleteMessageInput \<Rightarrow> error option"
  uploadFault :: "string \<Rightarrow> string \<Rightarrow> string \<Rightarrow> error option"
  downloadFault :: "string \<Rightarrow> string \<Rightarrow> error option"
  deleteObjectFault :: "string \<Rightarrow> string \<Rightarrow> error option"

definition logCall :: "call \<Rightarrow> world \<Rightarrow> world" where
  "logCall c w = w\<lparr>calls := calls w @ [c]\<rparr>"

definition DeleteMessage ::
  "services \<Rightarrow> DeleteMessageInput \<Rightarrow> world \<Rightarrow> error option \<times> DeleteMessageInput \<times> world" where
  "DeleteMessage svc params w =
     (deleteMessageResult svc params, params, logCall (DeleteMessageCall params) w)"

definition DeleteObject ::
  "services \<Rightarrow> string \<Rightarrow> string \<Rightarrow> world \<Rightarrow> error option \<times> world" where
  "DeleteObject svc bucket key w =
     (let w1 = logCall (DeleteObjectCall bucket key) w
      in case deleteObjectFault svc bucket key of
           Some e \<Rightarrow> (Some e, w1)
         | None \<Rightarrow> (None, w1\<lparr>objects := (objects w1)((bucket, key) := None)\<rparr>))"

section \<open>The size of a message\<close>

definition ToString :: "string option \<Rightarrow> string" where
  \<comment> \<open>\<open>aws.ToString\<close>: the string a pointer points to, the empty string for nil\<close>
  "ToString p = (case p of None \<Rightarrow> [] | Some s \<Rightarrow> s)"

text \<open>
  \<open>msgSize\<close> of \<open>sqs.go\<close>.  The loop over the attributes is \<open>msgSizeLoop\<close>, with the
  running \<open>size\<close> (here \<open>sz\<close>) as its accumulator; the function returns from inside the loop at the
  first attribute whose data type it does not know.  \<open>size\<close> is a Go \<open>int\<close> (64 bits on
  the platforms the SDK runs on) that sums lengths of strings held in memory, so it does
  not wrap, and it is a natural number here.
\<close>

fun msgSizeLoop :: "attributes \<Rightarrow> nat \<Rightarrow> error + nat" where
  "msgSizeLoop [] sz = Inr sz"
| "msgSizeLoop ((k, v) # rest) sz =
     (let dataType = ToString (DataType v);
          sz1 = sz + length k;
          sz2 = sz1 + length dataType
      in if HasPrefix dataType ''String'' \<or> HasPrefix dataType ''Number''
         then msgSizeLoop rest (sz2 + length (ToString (StringValue v)))
         else if HasPrefix dataType ''Binary''
         then msgSizeLoop rest (sz2 + length (BinaryValue v))
         else Inl (UnsupportedAttributeType dataType))"

definition msgSize :: "SendMessageInput \<Rightarrow> error + nat" where
  "msgSize params =
     (case MessageBody params of
        None \<Rightarrow> Inl NilPointerPanic
      | Some body \<Rightarrow> msgSizeLoop (MessageAttributes params) (length body))"

text \<open>
  The terms of the specification's size formula, to compare \<open>msgSize\<close> with: whether a
  data type is one the size calculation knows, and the length of the value it counts.
\<close>

definition knownDataType :: "string \<Rightarrow> bool" where
  "knownDataType dataType =
     (HasPrefix dataType ''String'' \<or> HasPrefix dataType ''Number'' \<or> HasPrefix dataType ''Binary'')"

definition valueLength :: "MessageAttributeValue \<Rightarrow> nat" where
  "valueLength v =
     (if HasPrefix (ToString (DataType v)) ''String'' \<or> HasPrefix (ToString (DataType v)) ''Number''
      then length (ToString (StringValue v))
      else length (BinaryValue v))"

definition attributeLength :: "string \<times> MessageAttributeValue \<Rightarrow> nat" where
  "attributeLength kv =
     length (fst kv) + length (ToString (DataType (snd kv))) + valueLength (snd kv)"

section \<open>Receipt handles\<close>

text \<open>
  \<open>newReceiptHandle\<close> is what \<open>ReceiveHeftyMessage\<close> puts in place of the queue's
  receipt handle of an offloaded message (the \<open>fmt.Sprintf\<close> of the four tokens and its
  base64 encoding); \<open>receiptHandleWireForm\<close> is the string before the encoding.
\<close>

definition receiptHandleWireForm :: "string \<Rightarrow> string \<Rightarrow> string \<Rightarrow> string" where
  "receiptHandleWireForm receiptHandle s3Bucket s3Key =
     receiptHandlePrefix @ ''|'' @ receiptHandle @ ''|'' @ s3Bucket @ ''|'' @ s3Key"

definition newReceiptHandle :: "string \<Rightarrow> string \<Rightarrow> string \<Rightarrow> string" where
  "newReceiptHandle receiptHandle s3Bucket s3Key =
     EncodeToString (receiptHandleWireForm receiptHandle s3Bucket s3Key)"

text \<open>
  The first half of \<open>DeleteHeftyMessage\<close>, from the decoding of the receipt handle to
  the three tokens it reads: the handle is that of an ordinary message (\<open>NativeHandle\<close>:
  the caller's handle is used as it is), or that of an offloaded one, with the queue's
  own receipt handle, the bucket and the key.
\<close>

datatype unwrapped = NativeHandle | HeftyHandle string string string

definition unwrapReceiptHandle :: "string \<Rightarrow> error + unwrapped" where
  "unwrapReceiptHandle handle =
     (case DecodeString handle of
        None \<Rightarrow> Inl CouldNotDecodeReceiptHandle
      | Some decodedStr \<Rightarrow>
          if \<not> HasPrefix decodedStr receiptHandlePrefix then Inr NativeHandle
          else
            let tokens = Split decodedStr (CHR ''|'')
            in if length tokens \<noteq> expectedReceiptHandleTokenCount
               then Inl (MalformedReceiptHandle expectedReceiptHandleTokenCount)
               else Inr (HeftyHandle (tokens ! 1) (tokens ! 2) (tokens ! 3)))"

text \<open>
  \<open>DeleteHeftyMessage\<close>.  The result is the error or success of the call, the
  \<open>params\<close> as the call leaves them (it writes the queue's receipt handle into them
  before the queue delete) and the world after it.  A nil \<open>params\<close> panics at the first
  field read.
\<close>

definition DeleteHeftyMessage ::
  "services \<Rightarrow> DeleteMessageInput option \<Rightarrow> world
     \<Rightarrow> error option \<times> DeleteMessageInput option \<times> world" where
  "DeleteHeftyMessage svc params w =
     (case params of
        None \<Rightarrow> (Some NilPointerPanic, None, w)
      | Some p \<Rightarrow>
         (case ReceiptHandle p of
            None \<Rightarrow>
              (case DeleteMessage svc p w of (r, p', w') \<Rightarrow> (r, Some p', w'))
          | Some handle \<Rightarrow>
             (case unwrapReceiptHandle handle of
                Inl e \<Rightarrow> (Some e, Some p, w)
              | Inr NativeHandle \<Rightarrow>
                  (case DeleteMessage svc p w of (r, p', w') \<Rightarrow> (r, Some p', w'))
              | Inr (HeftyHandle receiptHandle s3Bucket s3Key) \<Rightarrow>
                 (case DeleteObject svc s3Bucket s3Key w of
                    (Some e, w1) \<Rightarrow> (Some (CouldNotDeleteS3Object e), Some p, w1)
                  | (None, w1) \<Rightarrow>
                     (case DeleteMessage svc (p\<lparr>ReceiptHandle := Some receiptHandle\<rparr>) w1 of
                        (r, p', w') \<Rightarrow> (r, Some p', w'))))))"

section \<open>Properties of the library functions\<close>

lemma distinct_encodeStd: "distinct encodeStd"
  by (simp add: encodeStd_def)

lemma length_encodeStd: "length encodeStd = 64"
  by (simp add: encodeStd_def)

lemma indexByte_nth: "distinct xs \<Longrightarrow> i < length xs \<Longrightarrow> indexByte xs (xs ! i) = Some i"
proof (induction xs arbitrary: i)
  case Nil then show ?case by simp
next
  case (Cons x xs)
  show ?case
  proof (cases i)
    case 0 then show ?thesis by simp
  next
    case (Suc j)
    with Cons.prems have "j < length xs" "distinct xs" "xs ! j \<in> set xs" "x \<notin> set xs" by auto
    then have "x \<noteq> xs ! j" by auto
    with Suc Cons.IH[of j] \<open>j < length xs\<close> \<open>distinct xs\<close> show ?thesis by simp
  qed
qed

lemma decodeMap_sextet: "decodeMap (sextet i) = Some (i mod 64)"
  unfolding decodeMap_def sextet_def
  by (rule indexByte_nth) (simp_all add: distinct_encodeStd length_encodeStd)

lemma sextet_in: "sextet i \<in> set encodeStd"
  unfolding sextet_def by (rule nth_mem) (simp add: length_encodeStd)

lemma pad_notin: "padChar \<notin> set encodeStd"
  by (simp add: encodeStd_def padChar_def)

lemma decodeMap_pad: "decodeMap padChar = None"
  by (simp add: decodeMap_def encodeStd_def padChar_def)

lemma nl_notin: "CHR 0x0A \<notin> set encodeStd" "CHR 0x0D \<notin> set encodeStd"
  by (simp_all add: encodeStd_def)

lemma filter_encode: "filter (\<lambda>c. c \<noteq> CHR 0x0A \<and> c \<noteq> CHR 0x0D) (EncodeToString s) = EncodeToString s"
proof -
  have nl: "sextet i \<noteq> CHR 0x0A \<and> sextet i \<noteq> CHR 0x0D" for i
    using sextet_in[of i] nl_notin by metis
  show ?thesis
    by (induction s rule: EncodeToString.induct) (simp_all add: Let_def nl padChar_def)
qed

lemma byte1of_enc:
  fixes x y :: nat
  assumes "x < 256" "y < 256"
  shows "(x div 4 mod 64) * 4 + (((x mod 4) * 16 + y div 16) mod 64) div 16 = x"
proof -
  have a: "x div 4 mod 64 = x div 4" using assms by simp
  have b: "((x mod 4) * 16 + y div 16) mod 64 = (x mod 4) * 16 + y div 16"
  proof (intro mod_less)
    have "x mod 4 < 4" by simp
    moreover have "y div 16 < 16" using assms by simp
    ultimately show "(x mod 4) * 16 + y div 16 < 64" by arith
  qed
  have c: "((x mod 4) * 16 + y div 16) div 16 = x mod 4"
    using assms by simp
  show ?thesis unfolding a b c by simp
qed

lemma byte2of_enc:
  fixes x y z :: nat
  assumes "y < 256" "z < 256"
  shows "(((x mod 4) * 16 + y div 16) mod 64 mod 16) * 16 + (((y mod 16) * 4 + z div 64) mod 64) div 4 = y"
proof -
  have a: "((x mod 4) * 16 + y div 16) mod 64 mod 16 = y div 16"
    using assms by (simp add: mod_mod_cancel)
  have b: "((y mod 16) * 4 + z div 64) mod 64 = (y mod 16) * 4 + z div 64"
  proof (intro mod_less)
    have "y mod 16 < 16" by simp
    moreover have "z div 64 < 4" using assms by simp
    ultimately show "(y mod 16) * 4 + z div 64 < 64" by arith
  qed
  have c: "((y mod 16) * 4 + z div 64) div 4 = y mod 16"
    using assms by simp
  show ?thesis unfolding a b c by simp
qed

lemma byte3of_enc:
  fixes y z :: nat
  assumes "z < 256"
  shows "(((y mod 16) * 4 + z div 64) mod 64 mod 4) * 64 + z mod 64 mod 64 = z"
proof -
  have a: "((y mod 16) * 4 + z div 64) mod 64 mod 4 = z div 64"
    using assms by (simp add: mod_mod_cancel)
  show ?thesis unfolding a by simp
qed

lemma of_char_lt_256: "(of_char a :: nat) < 256"
proof -
  have "(of_char a :: nat) mod 256 < 256" by simp
  then show ?thesis by (simp only: of_char_mod_256)
qed

lemma byte1of_sextet:
  "byte1of (of_char a div 4 mod 64) (((of_char a mod 4) * 16 + of_char b div 16) mod 64) = a"
  unfolding byte1of_def
  by (simp only: byte1of_enc[OF of_char_lt_256 of_char_lt_256] char_of_char)

lemma byte1of_sextet0:
  "byte1of (of_char a div 4 mod 64) (((of_char a mod 4) * 16) mod 64) = a"
proof -
  have "(of_char a div 4 mod 64) * 4 + (((of_char a mod 4) * 16 + 0 div 16) mod 64) div 16
        = (of_char a :: nat)"
    by (rule byte1of_enc[OF of_char_lt_256]) simp
  then show ?thesis unfolding byte1of_def by simp
qed

lemma byte2of_sextet:
  "byte2of (((x mod 4) * 16 + of_char b div 16) mod 64)
           (((of_char b mod 16) * 4 + of_char c div 64) mod 64) = b"
  unfolding byte2of_def
  by (simp only: byte2of_enc[OF of_char_lt_256 of_char_lt_256] char_of_char)

lemma byte2of_sextet0:
  "byte2of (((x mod 4) * 16 + of_char b div 16) mod 64) (((of_char b mod 16) * 4) mod 64) = b"
proof -
  have "(((x mod 4) * 16 + of_char b div 16) mod 64 mod 16) * 16
          + (((of_char b mod 16) * 4 + 0 div 64) mod 64) div 4 = (of_char b :: nat)"
    by (rule byte2of_enc[OF of_char_lt_256]) simp
  then show ?thesis unfolding byte2of_def by simp
qed

lemma byte3of_sextet:
  "byte3of (((y mod 16) * 4 + of_char c div 64) mod 64) (of_char c mod 64 mod 64) = c"
  unfolding byte3of_def
  by (simp only: byte3of_enc[OF of_char_lt_256] char_of_char)

lemma decodeQuanta_EncodeToString: "decodeQuanta (EncodeToString s) = Some s"
proof (induction s rule: EncodeToString.induct)
  case 1
  show ?case by simp
next
  case (2 a)
  show ?case
    using byte1of_sextet0[of a]
    by (simp add: Let_def decodeMap_sextet decodeMap_pad)
next
  case (3 a b)
  show ?case
    using byte1of_sextet[of a b] byte2of_sextet0[of "of_char a" b]
    by (simp add: Let_def decodeMap_sextet decodeMap_pad)
next
  case (4 a b c rest)
  then show ?case
    using byte1of_sextet[of a b] byte2of_sextet[of "of_char a" b c] byte3of_sextet[of "of_char b" c]
    by (simp add: Let_def decodeMap_sextet)
qed

lemma DecodeString_EncodeToString: "DecodeString (EncodeToString s) = Some s"
  by (simp add: DecodeString_def filter_encode decodeQuanta_EncodeToString)

lemma Split_nonempty: "Split s sep \<noteq> []"
  by (induction s) (auto split: list.splits)

lemma Split_no_sep: "sep \<notin> set s \<Longrightarrow> Split s sep = [s]"
  by (induction s) auto

lemma Split_append_sep: "sep \<notin> set a \<Longrightarrow> Split (a @ sep # rest) sep = a # Split rest sep"
  by (induction a) auto

lemma length_Split: "length (Split s sep) = Suc (length (filter (\<lambda>c. c = sep) s))"
  by (induction s) (auto split: list.splits simp: Split_nonempty)


section \<open>Properties of the size calculation\<close>

lemma msgSizeLoop_known:
  "\<forall>kv \<in> set attrs. knownDataType (ToString (DataType (snd kv)))
   \<Longrightarrow> msgSizeLoop attrs n = Inr (n + sum_list (map attributeLength attrs))"
proof (induction attrs arbitrary: n)
  case Nil
  show ?case by simp
next
  case (Cons kv attrs)
  obtain k v where kv: "kv = (k, v)" by (cases kv)
  from Cons.prems kv have known: "knownDataType (ToString (DataType v))" by simp
  from Cons.prems have rest: "\<forall>kv \<in> set attrs. knownDataType (ToString (DataType (snd kv)))"
    by simp
  show ?case
    using known Cons.IH[OF rest]
    by (auto simp: kv Let_def knownDataType_def attributeLength_def valueLength_def)
qed

lemma msgSizeLoop_unknown:
  "\<exists>kv \<in> set attrs. \<not> knownDataType (ToString (DataType (snd kv)))
   \<Longrightarrow> \<exists>dataType. msgSizeLoop attrs n = Inl (UnsupportedAttributeType dataType)
                   \<and> \<not> knownDataType dataType"
proof (induction attrs arbitrary: n)
  case Nil
  then show ?case by simp
next
  case (Cons kv attrs)
  obtain k v where kv: "kv = (k, v)" by (cases kv)
  show ?case
  proof (cases "knownDataType (ToString (DataType v))")
    case True
    with Cons.prems kv
    have "\<exists>kv \<in> set attrs. \<not> knownDataType (ToString (DataType (snd kv)))" by auto
    from Cons.IH[OF this] True show ?thesis
      by (auto simp: kv Let_def knownDataType_def)
  next
    case False
    then show ?thesis
      by (auto simp: kv Let_def knownDataType_def)
  qed
qed

text \<open>
  C3.  The size of a message with a body is the length of the body plus, for each
  attribute, the lengths of its name, of its data type string and of its value (the
  string value when the data type starts with String or Number, the binary value when it
  starts with Binary), when every attribute has such a data type; when some attribute has
  none of them, the calculation fails with the error of an unsupported attribute type.
  The body "hi" with the one attribute k of type String and value "v" has size 2+1+6+1.
\<close>

theorem msgSize_sums_lengths:
  "(MessageBody params = Some body \<and>
      (\<forall>kv \<in> set (MessageAttributes params). knownDataType (ToString (DataType (snd kv))))
    \<longrightarrow> msgSize params
          = Inr (length body + sum_list (map attributeLength (MessageAttributes params))))
   \<and> (MessageBody params = Some body \<and>
      (\<exists>kv \<in> set (MessageAttributes params). \<not> knownDataType (ToString (DataType (snd kv))))
    \<longrightarrow> (\<exists>dataType. msgSize params = Inl (UnsupportedAttributeType dataType)))
   \<and> msgSize \<lparr>SendMessageInput.QueueUrl = q, MessageBody = Some ''hi'',
         MessageAttributes =
           [(''k'', \<lparr>DataType = Some ''String'', StringValue = Some ''v'', BinaryValue = []\<rparr>)]\<rparr>
       = Inr (2 + 1 + 6 + 1)"
proof (intro conjI impI)
  assume "MessageBody params = Some body \<and>
      (\<forall>kv \<in> set (MessageAttributes params). knownDataType (ToString (DataType (snd kv))))"
  then show "msgSize params
          = Inr (length body + sum_list (map attributeLength (MessageAttributes params)))"
    by (simp add: msgSize_def msgSizeLoop_known)
next
  assume a: "MessageBody params = Some body \<and>
      (\<exists>kv \<in> set (MessageAttributes params). \<not> knownDataType (ToString (DataType (snd kv))))"
  then have "\<exists>dataType. msgSizeLoop (MessageAttributes params) (length body)
                 = Inl (UnsupportedAttributeType dataType) \<and> \<not> knownDataType dataType"
    by (intro msgSizeLoop_unknown) simp
  with a show "\<exists>dataType. msgSize params = Inl (UnsupportedAttributeType dataType)"
    by (auto simp: msgSize_def)
next
  show "msgSize \<lparr>SendMessageInput.QueueUrl = q, MessageBody = Some ''hi'',
         MessageAttributes =
           [(''k'', \<lparr>DataType = Some ''String'', StringValue = Some ''v'', BinaryValue = []\<rparr>)]\<rparr>
       = Inr (2 + 1 + 6 + 1)"
    by (simp add: msgSize_def Let_def ToString_def HasPrefix_def)
qed

theorem msgSize_sums_lengths_witness:
  "msgSize \<lparr>SendMessageInput.QueueUrl = None, MessageBody = Some ''hello'',
      MessageAttributes =
        [(''a'', \<lparr>DataType = Some ''Number.int'', StringValue = Some ''42'', BinaryValue = []\<rparr>),
         (''bin'', \<lparr>DataType = Some ''Binary'', StringValue = None, BinaryValue = ''xyz''\<rparr>)]\<rparr>
     = Inr 30
   \<and> (\<exists>dataType.
        msgSize \<lparr>SendMessageInput.QueueUrl = None, MessageBody = Some ''hello'',
          MessageAttributes =
            [(''a'', \<lparr>DataType = Some ''Number.int'', StringValue = Some ''42'', BinaryValue = []\<rparr>),
             (''b'', \<lparr>DataType = Some ''Float'', StringValue = Some ''1.5'', BinaryValue = []\<rparr>)]\<rparr>
        = Inl (UnsupportedAttributeType dataType))"
proof -
  let ?p1 = "\<lparr>SendMessageInput.QueueUrl = None, MessageBody = Some ''hello'',
      MessageAttributes =
        [(''a'', \<lparr>DataType = Some ''Number.int'', StringValue = Some ''42'', BinaryValue = []\<rparr>),
         (''bin'', \<lparr>DataType = Some ''Binary'', StringValue = None, BinaryValue = ''xyz''\<rparr>)]\<rparr>"
  let ?p2 = "\<lparr>SendMessageInput.QueueUrl = None, MessageBody = Some ''hello'',
          MessageAttributes =
            [(''a'', \<lparr>DataType = Some ''Number.int'', StringValue = Some ''42'', BinaryValue = []\<rparr>),
             (''b'', \<lparr>DataType = Some ''Float'', StringValue = Some ''1.5'', BinaryValue = []\<rparr>)]\<rparr>"
  have h1: "MessageBody ?p1 = Some ''hello'' \<and>
      (\<forall>kv \<in> set (MessageAttributes ?p1). knownDataType (ToString (DataType (snd kv))))"
    by (simp add: knownDataType_def ToString_def HasPrefix_def)
  have h2: "MessageBody ?p2 = Some ''hello'' \<and>
      (\<exists>kv \<in> set (MessageAttributes ?p2). \<not> knownDataType (ToString (DataType (snd kv))))"
    by (simp add: knownDataType_def ToString_def HasPrefix_def)
  from msgSize_sums_lengths[of ?p1 "''hello''"] h1
  have "msgSize ?p1 = Inr (length ''hello'' + sum_list (map attributeLength (MessageAttributes ?p1)))"
    by blast
  then have r1: "msgSize ?p1 = Inr 30"
    by (simp add: attributeLength_def valueLength_def ToString_def HasPrefix_def)
  from msgSize_sums_lengths[of ?p2 "''hello''"] h2
  have r2: "\<exists>dataType. msgSize ?p2 = Inl (UnsupportedAttributeType dataType)"
    by blast
  from r1 r2 show ?thesis by blast
qed


section \<open>Properties of receipt handles and of the delete\<close>

lemma HasPrefix_append: "HasPrefix (pre @ rest) pre"
  by (simp add: HasPrefix_def)

lemma receiptHandlePrefix_no_pipe: "CHR ''|'' \<notin> set receiptHandlePrefix"
  by (simp add: receiptHandlePrefix_def)

lemma Split_wire_form:
  assumes "CHR ''|'' \<notin> set h" "CHR ''|'' \<notin> set c" "CHR ''|'' \<notin> set k"
  shows "Split (receiptHandleWireForm h c k) (CHR ''|'') = [receiptHandlePrefix, h, c, k]"
proof -
  have "Split (receiptHandleWireForm h c k) (CHR ''|'')
        = receiptHandlePrefix # Split (h @ CHR ''|'' # c @ CHR ''|'' # k) (CHR ''|'')"
    using Split_append_sep[OF receiptHandlePrefix_no_pipe]
    by (simp add: receiptHandleWireForm_def)
  also have "Split (h @ CHR ''|'' # c @ CHR ''|'' # k) (CHR ''|'')
        = h # Split (c @ CHR ''|'' # k) (CHR ''|'')"
    by (rule Split_append_sep[OF assms(1)])
  also have "Split (c @ CHR ''|'' # k) (CHR ''|'') = c # Split k (CHR ''|'')"
    by (rule Split_append_sep[OF assms(2)])
  also have "Split k (CHR ''|'') = [k]"
    by (rule Split_no_sep[OF assms(3)])
  finally show ?thesis .
qed

lemma unwrap_newReceiptHandle:
  assumes "CHR ''|'' \<notin> set h" "CHR ''|'' \<notin> set c" "CHR ''|'' \<notin> set k"
  shows "unwrapReceiptHandle (newReceiptHandle h c k) = Inr (HeftyHandle h c k)"
proof -
  have pre: "HasPrefix (receiptHandleWireForm h c k) receiptHandlePrefix"
    unfolding receiptHandleWireForm_def by (rule HasPrefix_append)
  show ?thesis
    by (simp add: unwrapReceiptHandle_def newReceiptHandle_def DecodeString_EncodeToString
        pre Split_wire_form[OF assms] expectedReceiptHandleTokenCount_def)
qed

lemma unwrap_malformed:
  assumes "DecodeString handle = Some decodedStr"
    and "HasPrefix decodedStr receiptHandlePrefix"
    and "length (Split decodedStr (CHR ''|'')) \<noteq> 4"
  shows "unwrapReceiptHandle handle = Inl (MalformedReceiptHandle 4)"
  using assms by (simp add: unwrapReceiptHandle_def expectedReceiptHandleTokenCount_def)

text \<open>
  C4.  For a queue receipt handle, a bucket and a key that hold no pipe character,
  unwrapping the receipt handle made from them gives back the three of them, marked as
  those of an offloaded message; the string that is encoded is the four tokens
  marker, handle, bucket and key with a pipe between them (it splits into exactly those
  four); the encoding is undone by the decoding, for every string; and a receipt handle
  that decodes to a string with the marker in front that does not split into four
  tokens is refused as malformed.
\<close>

theorem receipt_handle_round_trip:
  "(CHR ''|'' \<notin> set h \<and> CHR ''|'' \<notin> set c \<and> CHR ''|'' \<notin> set k
      \<longrightarrow> unwrapReceiptHandle (newReceiptHandle h c k) = Inr (HeftyHandle h c k)
        \<and> Split (receiptHandleWireForm h c k) (CHR ''|'') = [receiptHandlePrefix, h, c, k])
   \<and> receiptHandleWireForm h c k = ''hefty-message|'' @ h @ ''|'' @ c @ ''|'' @ k
   \<and> newReceiptHandle h c k = EncodeToString (receiptHandleWireForm h c k)
   \<and> DecodeString (EncodeToString s) = Some s
   \<and> (DecodeString handle = Some decodedStr \<and> HasPrefix decodedStr receiptHandlePrefix
        \<and> length (Split decodedStr (CHR ''|'')) \<noteq> 4
      \<longrightarrow> unwrapReceiptHandle handle = Inl (MalformedReceiptHandle 4))"
proof (intro conjI impI)
  assume a: "CHR ''|'' \<notin> set h \<and> CHR ''|'' \<notin> set c \<and> CHR ''|'' \<notin> set k"
  then show "unwrapReceiptHandle (newReceiptHandle h c k) = Inr (HeftyHandle h c k)"
    by (intro unwrap_newReceiptHandle) simp_all
  from a show "Split (receiptHandleWireForm h c k) (CHR ''|'') = [receiptHandlePrefix, h, c, k]"
    by (intro Split_wire_form) simp_all
next
  show "receiptHandleWireForm h c k = ''hefty-message|'' @ h @ ''|'' @ c @ ''|'' @ k"
    by (simp add: receiptHandleWireForm_def receiptHandlePrefix_def)
next
  show "newReceiptHandle h c k = EncodeToString (receiptHandleWireForm h c k)"
    by (simp add: newReceiptHandle_def)
next
  show "DecodeString (EncodeToString s) = Some s"
    by (rule DecodeString_EncodeToString)
next
  assume "DecodeString handle = Some decodedStr \<and> HasPrefix decodedStr receiptHandlePrefix
        \<and> length (Split decodedStr (CHR ''|'')) \<noteq> 4"
  then show "unwrapReceiptHandle handle = Inl (MalformedReceiptHandle 4)"
    by (intro unwrap_malformed[of handle decodedStr]) simp_all
qed

lemma encode_three_tokens:
  "EncodeToString ''hefty-message|rh1|bucketX'' = ''aGVmdHktbWVzc2FnZXxyaDF8YnVja2V0WA==''"
  by (simp add: Let_def sextet_def encodeStd_def padChar_def)

lemma decode_three_tokens:
  "DecodeString ''aGVmdHktbWVzc2FnZXxyaDF8YnVja2V0WA=='' = Some ''hefty-message|rh1|bucketX''"
  using DecodeString_EncodeToString[of "''hefty-message|rh1|bucketX''"]
  by (simp only: encode_three_tokens)

theorem receipt_handle_round_trip_witness:
  "unwrapReceiptHandle (newReceiptHandle ''rh1'' ''bucketX'' ''key/123'')
     = Inr (HeftyHandle ''rh1'' ''bucketX'' ''key/123'')
   \<and> Split (receiptHandleWireForm ''rh1'' ''bucketX'' ''key/123'') (CHR ''|'')
     = [''hefty-message'', ''rh1'', ''bucketX'', ''key/123'']
   \<and> unwrapReceiptHandle ''aGVmdHktbWVzc2FnZXxyaDF8YnVja2V0WA==''
     = Inl (MalformedReceiptHandle 4)"
proof -
  have h1: "CHR ''|'' \<notin> set ''rh1'' \<and> CHR ''|'' \<notin> set ''bucketX'' \<and> CHR ''|'' \<notin> set ''key/123''"
    by simp
  have h2: "DecodeString ''aGVmdHktbWVzc2FnZXxyaDF8YnVja2V0WA==''
              = Some ''hefty-message|rh1|bucketX''
            \<and> HasPrefix ''hefty-message|rh1|bucketX'' receiptHandlePrefix
            \<and> length (Split ''hefty-message|rh1|bucketX'' (CHR ''|'')) \<noteq> 4"
    by (simp add: decode_three_tokens HasPrefix_def receiptHandlePrefix_def)
  note t = receipt_handle_round_trip[where h = "''rh1''" and c = "''bucketX''" and k = "''key/123''"
      and handle = "''aGVmdHktbWVzc2FnZXxyaDF8YnVja2V0WA==''"
      and decodedStr = "''hefty-message|rh1|bucketX''"]
  from t h1
  have a: "unwrapReceiptHandle (newReceiptHandle ''rh1'' ''bucketX'' ''key/123'')
             = Inr (HeftyHandle ''rh1'' ''bucketX'' ''key/123'')
           \<and> Split (receiptHandleWireForm ''rh1'' ''bucketX'' ''key/123'') (CHR ''|'')
             = [receiptHandlePrefix, ''rh1'', ''bucketX'', ''key/123'']"
    by blast
  from t h2
  have b: "unwrapReceiptHandle ''aGVmdHktbWVzc2FnZXxyaDF8YnVja2V0WA==''
             = Inl (MalformedReceiptHandle 4)"
    by blast
  from a b show ?thesis by (simp add: receiptHandlePrefix_def)
qed


text \<open>
  A sample of the services, in which every call succeeds, and the world before any call,
  for the closed instances of the theorems.
\<close>

definition servicesOk :: services where
  "servicesOk =
     \<lparr>sendMessageResult =
        (\<lambda>p. Inr \<lparr>MessageId = Some ''id-1'', MD5OfMessageBody = None,
                   MD5OfMessageAttributes = None\<rparr>),
      deleteMessageResult = (\<lambda>p. None),
      uploadFault = (\<lambda>bucket key body. None),
      downloadFault = (\<lambda>bucket key. None),
      deleteObjectFault = (\<lambda>bucket key. None)\<rparr>"

definition emptyWorld :: world where
  "emptyWorld = \<lparr>objects = (\<lambda>k. None), calls = []\<rparr>"

lemma DeleteHeftyMessage_native:
  assumes "ReceiptHandle p = Some handle" and "unwrapReceiptHandle handle = Inr NativeHandle"
  shows "DeleteHeftyMessage svc (Some p) w
         = (deleteMessageResult svc p, Some p, w\<lparr>calls := calls w @ [DeleteMessageCall p]\<rparr>)"
  using assms by (simp add: DeleteHeftyMessage_def DeleteMessage_def logCall_def)

lemma DeleteHeftyMessage_error:
  assumes "ReceiptHandle p = Some handle" and "unwrapReceiptHandle handle = Inl e"
  shows "DeleteHeftyMessage svc (Some p) w = (Some e, Some p, w)"
  using assms by (simp add: DeleteHeftyMessage_def)

lemma DeleteHeftyMessage_hefty_ok:
  assumes "ReceiptHandle p = Some handle"
    and "unwrapReceiptHandle handle = Inr (HeftyHandle h bucket key)"
    and "deleteObjectFault svc bucket key = None"
  shows "DeleteHeftyMessage svc (Some p) w
         = (deleteMessageResult svc (p\<lparr>ReceiptHandle := Some h\<rparr>),
            Some (p\<lparr>ReceiptHandle := Some h\<rparr>),
            w\<lparr>objects := (objects w)((bucket, key) := None),
              calls := calls w @ [DeleteObjectCall bucket key,
                                  DeleteMessageCall (p\<lparr>ReceiptHandle := Some h\<rparr>)]\<rparr>)"
  using assms
  by (simp add: DeleteHeftyMessage_def DeleteObject_def DeleteMessage_def logCall_def Let_def)

lemma DeleteHeftyMessage_hefty_fault:
  assumes "ReceiptHandle p = Some handle"
    and "unwrapReceiptHandle handle = Inr (HeftyHandle h bucket key)"
    and "deleteObjectFault svc bucket key = Some e"
  shows "DeleteHeftyMessage svc (Some p) w
         = (Some (CouldNotDeleteS3Object e), Some p,
            w\<lparr>calls := calls w @ [DeleteObjectCall bucket key]\<rparr>)"
  using assms
  by (simp add: DeleteHeftyMessage_def DeleteObject_def logCall_def Let_def)

lemma unwrap_native:
  "DecodeString handle = Some decodedStr \<Longrightarrow> \<not> HasPrefix decodedStr receiptHandlePrefix
   \<Longrightarrow> unwrapReceiptHandle handle = Inr NativeHandle"
  by (simp add: unwrapReceiptHandle_def)

lemma unwrap_undecodable:
  "DecodeString handle = None \<Longrightarrow> unwrapReceiptHandle handle = Inl CouldNotDecodeReceiptHandle"
  by (simp add: unwrapReceiptHandle_def)

lemma decode_rh1: "DecodeString ''rh1'' = None"
  by (simp add: DecodeString_def)

lemma decode_plain_handle: "DecodeString ''AQEBzbVv'' = Some [CHR 0x01, CHR 0x01, CHR 0x01, CHR 0xCD, CHR 0xB5, CHR 0x6F]"
  by code_simp

text \<open>
  C5, as the code has it.  A receipt handle that decodes to a string without the marker
  in front is that of an ordinary message: the delete is the queue's delete, called once
  with the caller's parameters as they are, and its result is the result.  A receipt
  handle that does not decode is refused: the delete returns the decoding error, calls
  neither the store nor the queue, and leaves the parameters and the world as they were.
\<close>

theorem delete_of_native_handle:
  "(ReceiptHandle p = Some handle \<and> DecodeString handle = Some decodedStr
      \<and> \<not> HasPrefix decodedStr receiptHandlePrefix
    \<longrightarrow> unwrapReceiptHandle handle = Inr NativeHandle
      \<and> DeleteHeftyMessage svc (Some p) w
          = (deleteMessageResult svc p, Some p, w\<lparr>calls := calls w @ [DeleteMessageCall p]\<rparr>))
   \<and> (ReceiptHandle p = Some handle \<and> DecodeString handle = None
    \<longrightarrow> unwrapReceiptHandle handle = Inl CouldNotDecodeReceiptHandle
      \<and> DeleteHeftyMessage svc (Some p) w = (Some CouldNotDecodeReceiptHandle, Some p, w))"
proof (intro conjI impI)
  assume a: "ReceiptHandle p = Some handle \<and> DecodeString handle = Some decodedStr
      \<and> \<not> HasPrefix decodedStr receiptHandlePrefix"
  then show n: "unwrapReceiptHandle handle = Inr NativeHandle"
    by (intro unwrap_native[of handle decodedStr]) simp_all
  from a n show "DeleteHeftyMessage svc (Some p) w
          = (deleteMessageResult svc p, Some p, w\<lparr>calls := calls w @ [DeleteMessageCall p]\<rparr>)"
    by (intro DeleteHeftyMessage_native[of p handle]) simp_all
next
  assume a: "ReceiptHandle p = Some handle \<and> DecodeString handle = None"
  then show e: "unwrapReceiptHandle handle = Inl CouldNotDecodeReceiptHandle"
    by (intro unwrap_undecodable) simp
  from a e show "DeleteHeftyMessage svc (Some p) w = (Some CouldNotDecodeReceiptHandle, Some p, w)"
    by (intro DeleteHeftyMessage_error[of p handle]) simp_all
qed

theorem delete_of_native_handle_witness:
  "DeleteHeftyMessage servicesOk
     (Some \<lparr>DeleteMessageInput.QueueUrl = Some ''q'', ReceiptHandle = Some ''AQEBzbVv''\<rparr>) emptyWorld
   = (None, Some \<lparr>DeleteMessageInput.QueueUrl = Some ''q'', ReceiptHandle = Some ''AQEBzbVv''\<rparr>,
      \<lparr>objects = (\<lambda>k. None),
       calls = [DeleteMessageCall
                  \<lparr>DeleteMessageInput.QueueUrl = Some ''q'', ReceiptHandle = Some ''AQEBzbVv''\<rparr>]\<rparr>)
   \<and> DeleteHeftyMessage servicesOk
     (Some \<lparr>DeleteMessageInput.QueueUrl = Some ''q'', ReceiptHandle = Some ''rh1''\<rparr>) emptyWorld
   = (Some CouldNotDecodeReceiptHandle,
      Some \<lparr>DeleteMessageInput.QueueUrl = Some ''q'', ReceiptHandle = Some ''rh1''\<rparr>, emptyWorld)"
proof -
  let ?p1 = "\<lparr>DeleteMessageInput.QueueUrl = Some ''q'', ReceiptHandle = Some ''AQEBzbVv''\<rparr>"
  let ?p2 = "\<lparr>DeleteMessageInput.QueueUrl = Some ''q'', ReceiptHandle = Some ''rh1''\<rparr>"
  let ?d = "[CHR 0x01, CHR 0x01, CHR 0x01, CHR 0xCD, CHR 0xB5, CHR 0x6F]"
  have h1: "ReceiptHandle ?p1 = Some ''AQEBzbVv'' \<and> DecodeString ''AQEBzbVv'' = Some ?d
      \<and> \<not> HasPrefix ?d receiptHandlePrefix"
    by (simp add: decode_plain_handle HasPrefix_def receiptHandlePrefix_def)
  have h2: "ReceiptHandle ?p2 = Some ''rh1'' \<and> DecodeString ''rh1'' = None"
    by (simp add: decode_rh1)
  from delete_of_native_handle[where p = ?p1 and handle = "''AQEBzbVv''" and decodedStr = ?d
      and svc = servicesOk and w = emptyWorld] h1
  have a: "DeleteHeftyMessage servicesOk (Some ?p1) emptyWorld
          = (deleteMessageResult servicesOk ?p1, Some ?p1,
             emptyWorld\<lparr>calls := calls emptyWorld @ [DeleteMessageCall ?p1]\<rparr>)"
    by blast
  from delete_of_native_handle[where p = ?p2 and handle = "''rh1''"
      and svc = servicesOk and w = emptyWorld] h2
  have b: "DeleteHeftyMessage servicesOk (Some ?p2) emptyWorld
          = (Some CouldNotDecodeReceiptHandle, Some ?p2, emptyWorld)"
    by blast
  from a b show ?thesis by (simp add: servicesOk_def emptyWorld_def)
qed

text \<open>
  The claim C5 as it is written fails on the receipt handle "rh1", which is not base64
  (its length is not a multiple of four): the delete returns the decoding error and
  makes no call at all, where the claim has it pass the handle on to the queue's delete
  and return no error for the decoding.
\<close>

theorem delete_undecodable_handle_counterexample:
  "unwrapReceiptHandle ''rh1'' \<noteq> Inr NativeHandle
   \<and> fst (DeleteHeftyMessage servicesOk
       (Some \<lparr>DeleteMessageInput.QueueUrl = Some ''q'', ReceiptHandle = Some ''rh1''\<rparr>) emptyWorld)
     = Some CouldNotDecodeReceiptHandle
   \<and> calls (snd (snd (DeleteHeftyMessage servicesOk
       (Some \<lparr>DeleteMessageInput.QueueUrl = Some ''q'', ReceiptHandle = Some ''rh1''\<rparr>) emptyWorld)))
     = []"
  by (simp add: DeleteHeftyMessage_def unwrapReceiptHandle_def decode_rh1 emptyWorld_def)

text \<open>
  C9.  The delete of an offloaded message, that is of a receipt handle that unwraps to
  the queue's receipt handle, a bucket and a key: the object at that bucket and key is
  deleted first, and then the queue message, with the queue's receipt handle from the
  wrapper in the parameters; these are the only two calls, in this order.  When the
  delete of the object fails, the queue's delete is not called, and the error is returned.
\<close>

theorem delete_of_offloaded_message:
  "(ReceiptHandle p = Some handle \<and> unwrapReceiptHandle handle = Inr (HeftyHandle h bucket key)
      \<and> deleteObjectFault svc bucket key = None
    \<longrightarrow> DeleteHeftyMessage svc (Some p) w
         = (deleteMessageResult svc (p\<lparr>ReceiptHandle := Some h\<rparr>),
            Some (p\<lparr>ReceiptHandle := Some h\<rparr>),
            w\<lparr>objects := (objects w)((bucket, key) := None),
              calls := calls w @ [DeleteObjectCall bucket key,
                                  DeleteMessageCall (p\<lparr>ReceiptHandle := Some h\<rparr>)]\<rparr>))
   \<and> (ReceiptHandle p = Some handle \<and> unwrapReceiptHandle handle = Inr (HeftyHandle h bucket key)
      \<and> deleteObjectFault svc bucket key = Some e
    \<longrightarrow> DeleteHeftyMessage svc (Some p) w
         = (Some (CouldNotDeleteS3Object e), Some p,
            w\<lparr>calls := calls w @ [DeleteObjectCall bucket key]\<rparr>))"
proof (intro conjI impI)
  assume "ReceiptHandle p = Some handle \<and> unwrapReceiptHandle handle = Inr (HeftyHandle h bucket key)
      \<and> deleteObjectFault svc bucket key = None"
  then show "DeleteHeftyMessage svc (Some p) w
         = (deleteMessageResult svc (p\<lparr>ReceiptHandle := Some h\<rparr>),
            Some (p\<lparr>ReceiptHandle := Some h\<rparr>),
            w\<lparr>objects := (objects w)((bucket, key) := None),
              calls := calls w @ [DeleteObjectCall bucket key,
                                  DeleteMessageCall (p\<lparr>ReceiptHandle := Some h\<rparr>)]\<rparr>)"
    by (intro DeleteHeftyMessage_hefty_ok[of p handle]) simp_all
next
  assume "ReceiptHandle p = Some handle \<and> unwrapReceiptHandle handle = Inr (HeftyHandle h bucket key)
      \<and> deleteObjectFault svc bucket key = Some e"
  then show "DeleteHeftyMessage svc (Some p) w
         = (Some (CouldNotDeleteS3Object e), Some p,
            w\<lparr>calls := calls w @ [DeleteObjectCall bucket key]\<rparr>)"
    by (intro DeleteHeftyMessage_hefty_fault[of p handle h]) simp_all
qed

text \<open>
  The same services with a store that refuses every delete, and a world that holds the
  object of the offloaded message.
\<close>

definition servicesNoDelete :: services where
  "servicesNoDelete = servicesOk\<lparr>deleteObjectFault := (\<lambda>bucket key. Some (SdkError ''AccessDenied''))\<rparr>"

definition worldWithObject :: world where
  "worldWithObject =
     \<lparr>objects = (\<lambda>k. if k = (''bucketX'', ''key/123'') then Some ''payload'' else None),
      calls = []\<rparr>"

theorem delete_of_offloaded_message_witness:
  "DeleteHeftyMessage servicesOk
     (Some \<lparr>DeleteMessageInput.QueueUrl = Some ''q'',
            ReceiptHandle = Some (newReceiptHandle ''rh1'' ''bucketX'' ''key/123'')\<rparr>)
     worldWithObject
   = (None,
      Some \<lparr>DeleteMessageInput.QueueUrl = Some ''q'', ReceiptHandle = Some ''rh1''\<rparr>,
      \<lparr>objects = (\<lambda>k. None),
       calls = [DeleteObjectCall ''bucketX'' ''key/123'',
                DeleteMessageCall
                  \<lparr>DeleteMessageInput.QueueUrl = Some ''q'', ReceiptHandle = Some ''rh1''\<rparr>]\<rparr>)
   \<and> DeleteHeftyMessage servicesNoDelete
     (Some \<lparr>DeleteMessageInput.QueueUrl = Some ''q'',
            ReceiptHandle = Some (newReceiptHandle ''rh1'' ''bucketX'' ''key/123'')\<rparr>)
     worldWithObject
   = (Some (CouldNotDeleteS3Object (SdkError ''AccessDenied'')),
      Some \<lparr>DeleteMessageInput.QueueUrl = Some ''q'',
            ReceiptHandle = Some (newReceiptHandle ''rh1'' ''bucketX'' ''key/123'')\<rparr>,
      worldWithObject\<lparr>calls := [DeleteObjectCall ''bucketX'' ''key/123'']\<rparr>)"
proof -
  let ?handle = "newReceiptHandle ''rh1'' ''bucketX'' ''key/123''"
  let ?p = "\<lparr>DeleteMessageInput.QueueUrl = Some ''q'', ReceiptHandle = Some ?handle\<rparr>"
  have u: "unwrapReceiptHandle ?handle = Inr (HeftyHandle ''rh1'' ''bucketX'' ''key/123'')"
    by (rule unwrap_newReceiptHandle) simp_all
  have h1: "ReceiptHandle ?p = Some ?handle
      \<and> unwrapReceiptHandle ?handle = Inr (HeftyHandle ''rh1'' ''bucketX'' ''key/123'')
      \<and> deleteObjectFault servicesOk ''bucketX'' ''key/123'' = None"
    using u by (simp add: servicesOk_def)
  have h2: "ReceiptHandle ?p = Some ?handle
      \<and> unwrapReceiptHandle ?handle = Inr (HeftyHandle ''rh1'' ''bucketX'' ''key/123'')
      \<and> deleteObjectFault servicesNoDelete ''bucketX'' ''key/123'' = Some (SdkError ''AccessDenied'')"
    using u by (simp add: servicesNoDelete_def)
  have o: "(objects worldWithObject)((''bucketX'', ''key/123'') := None) = (\<lambda>k. None)"
    by (rule ext) (simp add: worldWithObject_def)
  from delete_of_offloaded_message[where p = ?p and handle = ?handle and h = "''rh1''"
      and bucket = "''bucketX''" and key = "''key/123''" and svc = servicesOk
      and w = worldWithObject] h1
  have a: "DeleteHeftyMessage servicesOk (Some ?p) worldWithObject
         = (deleteMessageResult servicesOk (?p\<lparr>ReceiptHandle := Some ''rh1''\<rparr>),
            Some (?p\<lparr>ReceiptHandle := Some ''rh1''\<rparr>),
            worldWithObject\<lparr>objects := (objects worldWithObject)((''bucketX'', ''key/123'') := None),
              calls := calls worldWithObject @ [DeleteObjectCall ''bucketX'' ''key/123'',
                  DeleteMessageCall (?p\<lparr>ReceiptHandle := Some ''rh1''\<rparr>)]\<rparr>)"
    by blast
  from delete_of_offloaded_message[where p = ?p and handle = ?handle and h = "''rh1''"
      and bucket = "''bucketX''" and key = "''key/123''" and svc = servicesNoDelete
      and w = worldWithObject and e = "SdkError ''AccessDenied''"] h2
  have b: "DeleteHeftyMessage servicesNoDelete (Some ?p) worldWithObject
         = (Some (CouldNotDeleteS3Object (SdkError ''AccessDenied'')), Some ?p,
            worldWithObject\<lparr>calls := calls worldWithObject @ [DeleteObjectCall ''bucketX'' ''key/123'']\<rparr>)"
    by blast
  have c: "calls worldWithObject = []" by (simp add: worldWithObject_def)
  show ?thesis
    unfolding a b o c
    by (simp add: servicesOk_def worldWithObject_def)
qed

end
